theory Spec2Isabelle
  imports Main "HOL-Library.Word" "HOL-Library.Multiset"
begin

section \<open>The comic-book archive plugin (cb.c)\<close>

text \<open>
  The plugin presents the images stored in an archive as the pages of a document.
  It is written against five libraries: libarchive (reading the archive), gdk-pixbuf
  (decoding images), glib (strings), girara (lists) and the host's document and page
  objects. Their code is not part of the plugin; each is represented here by the
  answers it gives to the calls the plugin makes, and the plugin's own functions are
  translated one by one on top of that.
\<close>

subsection \<open>Values of the libraries' headers\<close>

text \<open>
  The return codes of libarchive, with the values of its header \<^verbatim>\<open>archive.h\<close>.
  The plugin only tests a code for equality with \<^verbatim>\<open>ARCHIVE_EOF\<close> and
  \<^verbatim>\<open>ARCHIVE_OK\<close> and for being below \<^verbatim>\<open>ARCHIVE_WARN\<close>.
\<close>

definition ARCHIVE_EOF :: int where "ARCHIVE_EOF = 1"
definition ARCHIVE_OK :: int where "ARCHIVE_OK = 0"
definition ARCHIVE_RETRY :: int where "ARCHIVE_RETRY = - 10"
definition ARCHIVE_WARN :: int where "ARCHIVE_WARN = - 20"
definition ARCHIVE_FAILED :: int where "ARCHIVE_FAILED = - 25"
definition ARCHIVE_FATAL :: int where "ARCHIVE_FATAL = - 30"

text \<open>The file types of an archive entry; the plugin only asks for \<^verbatim>\<open>AE_IFREG\<close>.\<close>

datatype filetype = AE_IFREG | AE_IFLNK | AE_IFSOCK | AE_IFCHR | AE_IFBLK | AE_IFDIR | AE_IFIFO

text \<open>The host's error codes (\<^verbatim>\<open>zathura_error_t\<close>).\<close>

datatype zathura_error =
    ZATHURA_ERROR_OK
  | ZATHURA_ERROR_UNKNOWN
  | ZATHURA_ERROR_OUT_OF_MEMORY
  | ZATHURA_ERROR_NOT_IMPLEMENTED
  | ZATHURA_ERROR_INVALID_ARGUMENTS
  | ZATHURA_ERROR_INVALID_PASSWORD

subsection \<open>The archive as libarchive delivers it\<close>

type_synonym byte = "8 word"

text \<open>
  One entry of the archive: the code \<^verbatim>\<open>archive_read_next_header\<close> returns for it,
  its file type and path name, and the answers of the successive calls of
  \<^verbatim>\<open>archive_read_data_block\<close> on it, each a return code together with the buffer
  (and so the size) the call leaves in the caller's variables. After the last listed
  answer the library answers \<^verbatim>\<open>ARCHIVE_EOF\<close>; in the same way the header stream
  answers \<^verbatim>\<open>ARCHIVE_EOF\<close> after the last listed entry. Every entry is taken to have
  a path name (\<^verbatim>\<open>archive_entry_pathname\<close> does not return \<^verbatim>\<open>NULL\<close>).
\<close>

record archive_entry =
  header_rc :: int
  entry_filetype :: filetype
  pathname :: string
  data_blocks :: "(int \<times> byte list) list"

record archive =
  open_rc :: int
  entries :: "archive_entry list"

text \<open>The calls on an archive handle that decide its life cycle, in the order made.\<close>

datatype archive_call =
    Archive_read_new
  | Archive_read_open_filename
  | Archive_read_close
  | Archive_read_free

subsection \<open>The image decoder and the rest of the environment\<close>

text \<open>
  A \<^verbatim>\<open>GdkPixbufLoader\<close>: writing a buffer returns success or failure, the
  \<^verbatim>\<open>size-prepared\<close> signals emitted meanwhile (each with a width and a height) and the
  loader's next state; closing it may emit signals too (a loader that has buffered
  less than it needs to recognise the format decodes on close).
\<close>

record 's pixbuf_loader =
  loader_new :: 's
  loader_write :: "'s \<Rightarrow> byte list \<Rightarrow> bool \<times> (int \<times> int) list \<times> 's"
  loader_close :: "'s \<Rightarrow> (int \<times> int) list"

text \<open>
  Everything else the plugin asks of its surroundings: glib's case folding and
  collation (both depend on the locale), the extensions of the image formats
  gdk-pixbuf knows (one list per format), the loader, the full decoder
  \<^verbatim>\<open>gdk_pixbuf_new_from_stream\<close> applied to the content of a memory stream, the archive
  behind each file name, and whether the allocations that the plugin checks succeed.
  \<^verbatim>\<open>g_malloc0\<close> and \<^verbatim>\<open>g_strdup\<close> end the process instead of returning
  \<^verbatim>\<open>NULL\<close>, so the plugin's checks of their results have no branch here.
\<close>

record ('s, 'p) env =
  utf8_casefold :: "string \<Rightarrow> string"
  utf8_collate :: "string \<Rightarrow> string \<Rightarrow> int"
  pixbuf_formats :: "string list list"
  loader :: "'s pixbuf_loader"
  pixbuf_new_from_stream :: "byte list \<Rightarrow> 'p option"
  archive_file :: "string \<Rightarrow> archive"
  archive_read_new_ok :: bool
  list_new_ok :: bool
  sorted_list_new_ok :: bool
  memory_input_stream_new_ok :: bool

subsection \<open>The plugin's data (cb.c, lines 18 to 32)\<close>

text \<open>
  The field \<^verbatim>\<open>file\<close> of the page's record is \<open>meta_file\<close> here, \<open>file\<close> being a
  word of the theory language. It is a copy of the entry's path name.
\<close>

record cb_document_page_meta =
  meta_file :: string
  width :: int
  height :: int

record cb_document =
  pages :: "cb_document_page_meta list"

text \<open>The field \<^verbatim>\<open>file\<close> of \<^verbatim>\<open>struct cb_page_s\<close>.\<close>

record cb_page =
  cb_page_file :: string

text \<open>
  The host's document and page objects, as far as the plugin reads and writes them
  through the host's accessors. A pointer that may be \<^verbatim>\<open>NULL\<close> is an option. The
  drawing context is the list of the images painted on it at its origin.
\<close>

record zathura_document =
  doc_path :: string
  number_of_pages :: nat
  doc_data :: "cb_document option"

record zathura_page =
  page_index :: nat
  page_document :: "zathura_document option"
  page_width :: int
  page_height :: int
  page_data :: "cb_page option"

type_synonym 'p cairo = "'p list"

subsection \<open>Strings (libc and glib)\<close>

text \<open>
  \<^verbatim>\<open>strrchr\<close>: the rest of the string from the last occurrence of the character on,
  or \<^verbatim>\<open>NULL\<close>.
\<close>

fun strrchr :: "string \<Rightarrow> char \<Rightarrow> string option" where
  "strrchr [] c = None"
| "strrchr (x # xs) c =
     (case strrchr xs c of
        Some r \<Rightarrow> Some r
      | None \<Rightarrow> (if x = c then Some (x # xs) else None))"

text \<open>\<^verbatim>\<open>strcmp\<close>: the first differing byte decides, a proper prefix is smaller.\<close>

fun strcmp :: "string \<Rightarrow> string \<Rightarrow> int" where
  "strcmp [] [] = 0"
| "strcmp [] (y # ys) = - 1"
| "strcmp (x # xs) [] = 1"
| "strcmp (x # xs) (y # ys) =
     (if x = y then strcmp xs ys
      else if (of_char x :: nat) < of_char y then - 1 else 1)"

text \<open>\<^verbatim>\<open>g_strcmp0\<close>: \<^verbatim>\<open>strcmp\<close> that accepts \<^verbatim>\<open>NULL\<close>, which sorts before any string.\<close>

fun g_strcmp0 :: "string option \<Rightarrow> string option \<Rightarrow> int" where
  "g_strcmp0 None None = 0"
| "g_strcmp0 None (Some b) = - 1"
| "g_strcmp0 (Some a) None = 1"
| "g_strcmp0 (Some a) (Some b) = strcmp a b"

subsection \<open>Lists (girara)\<close>

text \<open>
  \<^verbatim>\<open>girara_list_append\<close> on a list made by \<^verbatim>\<open>girara_sorted_list_new2\<close> inserts with
  \<^verbatim>\<open>g_list_insert_sorted\<close>: before the first element that the new one does not
  compare greater than, at the end when there is none.
\<close>

fun girara_list_append :: "('a \<Rightarrow> 'a \<Rightarrow> int) \<Rightarrow> 'a \<Rightarrow> 'a list \<Rightarrow> 'a list" where
  "girara_list_append cmp x [] = [x]"
| "girara_list_append cmp x (y # ys) =
     (if cmp x y > 0 then y # girara_list_append cmp x ys else x # y # ys)"

text \<open>\<^verbatim>\<open>girara_list_nth\<close>: \<^verbatim>\<open>NULL\<close> beyond the end.\<close>

definition girara_list_nth :: "'a list \<Rightarrow> nat \<Rightarrow> 'a option" where
  "girara_list_nth xs n = (if n < length xs then Some (xs ! n) else None)"

subsection \<open>Extensions and path comparison (cb.c, lines 316 to 332 and 420 to 433)\<close>

fun get_extension :: "string option \<Rightarrow> string option" where
  "get_extension None = None"
| "get_extension (Some path) =
     (case strrchr path (CHR ''.'') of
        None \<Rightarrow> None
      | Some res \<Rightarrow> Some (tl res))"

definition compare_path :: "('s, 'p) env \<Rightarrow> string \<Rightarrow> string \<Rightarrow> int" where
  "compare_path E str1 str2 =
     (let ustr1 = utf8_casefold E str1;
          ustr2 = utf8_casefold E str2
      in utf8_collate E ustr1 ustr2)"

definition compare_pages ::
  "('s, 'p) env \<Rightarrow> cb_document_page_meta \<Rightarrow> cb_document_page_meta \<Rightarrow> int" where
  "compare_pages E page1 page2 = compare_path E (meta_file page1) (meta_file page2)"

subsection \<open>Scanning the archive (cb.c, lines 139 to 225)\<close>

text \<open>The handler of \<^verbatim>\<open>size-prepared\<close>: it stores the size in the page's record.\<close>

definition get_pixbuf_size ::
  "cb_document_page_meta \<Rightarrow> int \<times> int \<Rightarrow> cb_document_page_meta" where
  "get_pixbuf_size meta wh = meta\<lparr>width := fst wh, height := snd wh\<rparr>"

text \<open>
  The inner loop (lines 194 to 206) over the data blocks of one entry. The return
  code is compared with \<^verbatim>\<open>ARCHIVE_EOF\<close> only. An empty block is passed over; the
  loop ends early when the loader refuses a block or once a width or a height is
  known.
\<close>

fun read_data_blocks ::
  "'s pixbuf_loader \<Rightarrow> (int \<times> byte list) list \<Rightarrow> 's \<Rightarrow> cb_document_page_meta
     \<Rightarrow> 's \<times> cb_document_page_meta" where
  "read_data_blocks L [] s meta = (s, meta)"
| "read_data_blocks L ((r, buf) # rest) s meta =
     (if r = ARCHIVE_EOF then (s, meta)
      else if length buf \<le> 0 then read_data_blocks L rest s meta
      else
        (case loader_write L s buf of
           (ok, sizes, s') \<Rightarrow>
             (let meta' = foldl get_pixbuf_size meta sizes
              in if \<not> ok then (s', meta')
                 else if width meta' > 0 \<or> height meta' > 0 then (s', meta')
                 else read_data_blocks L rest s' meta')))"

text \<open>
  Lines 185 to 209: the record made for an entry, after the loop over its data
  blocks and after closing the loader.
\<close>

definition probe_entry :: "'s pixbuf_loader \<Rightarrow> archive_entry \<Rightarrow> cb_document_page_meta" where
  "probe_entry L e =
     (let meta = \<lparr>meta_file = pathname e, width = 0, height = 0\<rparr>;
          (s, meta') = read_data_blocks L (data_blocks e) (loader_new L) meta
      in foldl get_pixbuf_size meta' (loader_close L s))"

text \<open>
  Lines 185 to 217: the body run for an entry whose extension matched. The entry is
  probed and, when both sizes are positive, added to the pages; otherwise its record
  is freed.
\<close>

definition add_page ::
  "('s, 'p) env \<Rightarrow> archive_entry \<Rightarrow> cb_document_page_meta list
     \<Rightarrow> cb_document_page_meta list" where
  "add_page E e pgs =
     (let meta = probe_entry (loader E) e
      in if width meta > 0 \<and> height meta > 0
         then girara_list_append (compare_pages E) meta pgs
         else pgs)"

text \<open>
  Lines 183 to 219: the loop over the supported extensions. The first one equal to
  the entry's extension runs the body, and the loop ends there.
\<close>

fun foreach_extension ::
  "('s, 'p) env \<Rightarrow> archive_entry \<Rightarrow> string option \<Rightarrow> string list
     \<Rightarrow> cb_document_page_meta list \<Rightarrow> cb_document_page_meta list" where
  "foreach_extension E e extension [] pgs = pgs"
| "foreach_extension E e extension (ext # exts) pgs =
     (if g_strcmp0 extension (Some ext) = 0 then add_page E e pgs
      else foreach_extension E e extension exts pgs)"

text \<open>Lines 175 to 219: the body of the outer loop for one entry with a usable header.\<close>

definition scan_entry ::
  "('s, 'p) env \<Rightarrow> string list \<Rightarrow> archive_entry
     \<Rightarrow> cb_document_page_meta list \<Rightarrow> cb_document_page_meta list" where
  "scan_entry E supported_extensions e pgs =
     (if entry_filetype e \<noteq> AE_IFREG then pgs
      else
        (let path = pathname e;
             extension = get_extension (Some path)
         in foreach_extension E e extension supported_extensions pgs))"

text \<open>
  Lines 167 to 220: the outer loop over the headers. A code below \<^verbatim>\<open>ARCHIVE_WARN\<close>
  closes and frees the handle and gives up; the pages added so far stay in the list.
\<close>

fun scan_entries ::
  "('s, 'p) env \<Rightarrow> string list \<Rightarrow> archive_entry list \<Rightarrow> cb_document_page_meta list
     \<Rightarrow> bool \<times> cb_document_page_meta list \<times> archive_call list" where
  "scan_entries E supported_extensions [] pgs = (True, pgs, [])"
| "scan_entries E supported_extensions (e # es) pgs =
     (let r = header_rc e
      in if r = ARCHIVE_EOF then (True, pgs, [])
         else if r < ARCHIVE_WARN then (False, pgs, [Archive_read_close, Archive_read_free])
         else scan_entries E supported_extensions es (scan_entry E supported_extensions e pgs))"

definition read_archive ::
  "('s, 'p) env \<Rightarrow> cb_document \<Rightarrow> string \<Rightarrow> string list
     \<Rightarrow> bool \<times> cb_document \<times> archive_call list" where
  "read_archive E cb_doc archive_name supported_extensions =
     (if \<not> archive_read_new_ok E then (False, cb_doc, [])
      else
        (let a = archive_file E archive_name;
             r = open_rc a
         in if r \<noteq> ARCHIVE_OK
            then (False, cb_doc, [Archive_read_new, Archive_read_open_filename, Archive_read_free])
            else
              (case scan_entries E supported_extensions (entries a) (pages cb_doc) of
                 (False, pgs, calls) \<Rightarrow>
                   (False, cb_doc\<lparr>pages := pgs\<rparr>,
                    [Archive_read_new, Archive_read_open_filename] @ calls)
               | (True, pgs, calls) \<Rightarrow>
                   (True, cb_doc\<lparr>pages := pgs\<rparr>,
                    [Archive_read_new, Archive_read_open_filename] @ calls
                      @ [Archive_read_close, Archive_read_free]))))"

subsection \<open>Opening the document (cb.c, lines 68 to 124)\<close>

text \<open>
  The result is the error code, the document as the call leaves it and the calls made
  on the archive handle. On failure the plugin's data is freed and the document is
  left as it was.
\<close>

definition cb_document_open ::
  "('s, 'p) env \<Rightarrow> zathura_document option
     \<Rightarrow> zathura_error \<times> zathura_document option \<times> archive_call list" where
  "cb_document_open E document =
     (case document of
        None \<Rightarrow> (ZATHURA_ERROR_INVALID_ARGUMENTS, None, [])
      | Some d \<Rightarrow>
          (let path = doc_path d
           in if \<not> list_new_ok E then (ZATHURA_ERROR_UNKNOWN, Some d, [])
              else
                (let supported_extensions = concat (pixbuf_formats E)
                 in if \<not> sorted_list_new_ok E then (ZATHURA_ERROR_UNKNOWN, Some d, [])
                    else
                      (case read_archive E \<lparr>pages = []\<rparr> path supported_extensions of
                         (False, cb_doc, calls) \<Rightarrow> (ZATHURA_ERROR_UNKNOWN, Some d, calls)
                       | (True, cb_doc, calls) \<Rightarrow>
                           (ZATHURA_ERROR_OK,
                            Some (d\<lparr>number_of_pages := length (pages cb_doc),
                                    doc_data := Some cb_doc\<rparr>),
                            calls)))))"

subsection \<open>Initialising a page (cb.c, lines 244 to 274)\<close>

definition cb_page_init :: "zathura_page option \<Rightarrow> zathura_error \<times> zathura_page option" where
  "cb_page_init page =
     (case page of
        None \<Rightarrow> (ZATHURA_ERROR_INVALID_ARGUMENTS, None)
      | Some p \<Rightarrow>
          (case page_document p of
             None \<Rightarrow> (ZATHURA_ERROR_UNKNOWN, Some p)
           | Some document \<Rightarrow>
               (case doc_data document of
                  None \<Rightarrow> (ZATHURA_ERROR_UNKNOWN, Some p)
                | Some cb_doc \<Rightarrow>
                    (case girara_list_nth (pages cb_doc) (page_index p) of
                       None \<Rightarrow> (ZATHURA_ERROR_UNKNOWN, Some p)
                     | Some meta \<Rightarrow>
                         (ZATHURA_ERROR_OK,
                          Some (p\<lparr>page_width := width meta,
                                  page_height := height meta,
                                  page_data := Some \<lparr>cb_page_file = meta_file meta\<rparr>\<rparr>))))))"

subsection \<open>Fetching and rendering a page (cb.c, lines 289 to 313 and 334 to 418)\<close>

text \<open>
  Lines 377 to 399: all data blocks of the matching entry are copied into the memory
  stream in order; a code below \<^verbatim>\<open>ARCHIVE_WARN\<close> gives up.
\<close>

fun add_data_blocks :: "(int \<times> byte list) list \<Rightarrow> byte list \<Rightarrow> byte list option" where
  "add_data_blocks [] mis = Some mis"
| "add_data_blocks ((r, buf) # rest) mis =
     (if r = ARCHIVE_EOF then Some mis
      else if r < ARCHIVE_WARN then None
      else if length buf = 0 then add_data_blocks rest mis
      else add_data_blocks rest (mis @ buf))"

text \<open>
  Lines 354 to 417: the loop over the headers. Every way out of it closes and frees
  the handle.
\<close>

fun find_entry ::
  "('s, 'p) env \<Rightarrow> string \<Rightarrow> archive_entry list \<Rightarrow> 'p option \<times> archive_call list" where
  "find_entry E file_name [] = (None, [Archive_read_close, Archive_read_free])"
| "find_entry E file_name (e # es) =
     (let r = header_rc e
      in if r = ARCHIVE_EOF then (None, [Archive_read_close, Archive_read_free])
         else if r < ARCHIVE_WARN then (None, [Archive_read_close, Archive_read_free])
         else if compare_path E (pathname e) file_name \<noteq> 0 then find_entry E file_name es
         else if \<not> memory_input_stream_new_ok E
           then (None, [Archive_read_close, Archive_read_free])
         else
           (case add_data_blocks (data_blocks e) [] of
              None \<Rightarrow> (None, [Archive_read_close, Archive_read_free])
            | Some content \<Rightarrow>
                (case pixbuf_new_from_stream E content of
                   None \<Rightarrow> (None, [Archive_read_close, Archive_read_free])
                 | Some pixbuf \<Rightarrow> (Some pixbuf, [Archive_read_close, Archive_read_free]))))"

definition load_pixbuf_from_archive ::
  "('s, 'p) env \<Rightarrow> string option \<Rightarrow> string option \<Rightarrow> 'p option \<times> archive_call list" where
  "load_pixbuf_from_archive E archive_name file_name =
     (case (archive_name, file_name) of
        (Some archive_name', Some file_name') \<Rightarrow>
          (if \<not> archive_read_new_ok E then (None, [])
           else
             (let a = archive_file E archive_name';
                  r = open_rc a
              in if r \<noteq> ARCHIVE_OK
                 then (None, [Archive_read_new, Archive_read_open_filename])
                 else
                   (case find_entry E file_name' (entries a) of
                      (res, calls) \<Rightarrow>
                        (res, [Archive_read_new, Archive_read_open_filename] @ calls))))
      | _ \<Rightarrow> (None, []))"

definition cb_page_render_cairo ::
  "('s, 'p) env \<Rightarrow> zathura_page option \<Rightarrow> cb_page option \<Rightarrow> 'p cairo option \<Rightarrow> bool
     \<Rightarrow> zathura_error \<times> 'p cairo option \<times> archive_call list" where
  "cb_page_render_cairo E page cb_pg cairo printing =
     (case (page, cb_pg, cairo) of
        (Some p, Some cp, Some c) \<Rightarrow>
          (case page_document p of
             None \<Rightarrow> (ZATHURA_ERROR_UNKNOWN, cairo, [])
           | Some document \<Rightarrow>
               (case load_pixbuf_from_archive E (Some (doc_path document)) (Some (cb_page_file cp)) of
                  (None, calls) \<Rightarrow> (ZATHURA_ERROR_UNKNOWN, cairo, calls)
                | (Some pixbuf, calls) \<Rightarrow> (ZATHURA_ERROR_OK, Some (c @ [pixbuf]), calls)))
      | _ \<Rightarrow> (ZATHURA_ERROR_INVALID_ARGUMENTS, cairo, []))"

subsection \<open>Images that the loader recognises\<close>


subsection \<open>What is asked of the collation\<close>

text \<open>
  \<^verbatim>\<open>g_utf8_collate\<close> compares by the rules of the current locale. Of these only the
  following is used: the sign of the result turns around when the operands are
  exchanged, and \<open>not greater\<close> is transitive. Two different strings may collate as
  equal.
\<close>

definition collation_ok :: "(string \<Rightarrow> string \<Rightarrow> int) \<Rightarrow> bool" where
  "collation_ok col \<longleftrightarrow>
     (\<forall>a b. (col a b < 0) = (col b a > 0))
     \<and> (\<forall>a b c. col a b \<le> 0 \<and> col b c \<le> 0 \<longrightarrow> col a c \<le> 0)"

subsection \<open>An instance of the environment\<close>

text \<open>
  A small environment on which the definitions can be run: the C locale on ASCII
  (case folding maps the capital letters to the small ones, collation is
  \<^verbatim>\<open>strcmp\<close>), the extensions \<^verbatim>\<open>png\<close> and \<^verbatim>\<open>jpg\<close>, and an image format
  made of a width byte and a height byte followed by the pixels, in which a leading
  zero byte is refused. The decoded image is the whole content. All allocations
  succeed.
\<close>

definition ascii_tolower :: "char \<Rightarrow> char" where
  "ascii_tolower c =
     (if (65::nat) \<le> of_char c \<and> of_char c \<le> (90::nat)
      then char_of (of_char c + (32::nat)) else c)"

definition ascii_casefold :: "string \<Rightarrow> string" where
  "ascii_casefold s = map ascii_tolower s"

definition two_byte_loader :: "(byte list) pixbuf_loader" where
  "two_byte_loader =
     \<lparr>loader_new = [],
      loader_write = (\<lambda>s buf.
        (let s' = s @ buf
         in if hd s' = 0 then (False, [], s')
            else (True,
                  (if length s < 2 \<and> 2 \<le> length s' then [(uint (s' ! 0), uint (s' ! 1))] else []),
                  s'))),
      loader_close = (\<lambda>s. [])\<rparr>"

definition two_byte_decode :: "byte list \<Rightarrow> byte list option" where
  "two_byte_decode content =
     (if 2 \<le> length content \<and> hd content \<noteq> 0 then Some content else None)"

definition ascii_env :: "(string \<Rightarrow> archive) \<Rightarrow> (byte list, byte list) env" where
  "ascii_env files =
     \<lparr>utf8_casefold = ascii_casefold,
      utf8_collate = strcmp,
      pixbuf_formats = [[''png''], [''jpg'']],
      loader = two_byte_loader,
      pixbuf_new_from_stream = two_byte_decode,
      archive_file = files,
      archive_read_new_ok = True,
      list_new_ok = True,
      sorted_list_new_ok = True,
      memory_input_stream_new_ok = True\<rparr>"

text \<open>
  A directory of archive files; opening a name that is not listed fails with
  \<^verbatim>\<open>ARCHIVE_FATAL\<close>.
\<close>

fun directory :: "(string \<times> archive_entry list) list \<Rightarrow> string \<Rightarrow> archive" where
  "directory [] name = \<lparr>open_rc = ARCHIVE_FATAL, entries = []\<rparr>"
| "directory ((n, es) # rest) name =
     (if name = n then \<lparr>open_rc = ARCHIVE_OK, entries = es\<rparr> else directory rest name)"

text \<open>A regular file with a good header whose content arrives in one block.\<close>

definition regular_entry :: "string \<Rightarrow> byte list \<Rightarrow> archive_entry" where
  "regular_entry name content =
     \<lparr>header_rc = ARCHIVE_OK, entry_filetype = AE_IFREG, pathname = name,
      data_blocks = [(ARCHIVE_OK, content)]\<rparr>"

text \<open>Two images, stored in the reverse of their page order.\<close>

definition two_pages :: "archive_entry list" where
  "two_pages = [regular_entry ''b.png'' [50, 50, 7], regular_entry ''a.png'' [30, 30, 9]]"

text \<open>
  Three images, the second of which cannot be read: on its first data block the
  library answers \<^verbatim>\<open>ARCHIVE_FAILED\<close> and leaves the caller's buffer empty; the
  archive stays usable for the entries after it.
\<close>

definition failing_block :: "archive_entry list" where
  "failing_block =
     [regular_entry ''a.png'' [30, 30, 9],
      \<lparr>header_rc = ARCHIVE_OK, entry_filetype = AE_IFREG, pathname = ''b.png'',
       data_blocks = [(ARCHIVE_FAILED, [])]\<rparr>,
      regular_entry ''c.png'' [40, 40, 8]]"

text \<open>Two images and a text file, stored in the reverse of the page order.\<close>

definition three_entries :: "archive_entry list" where
  "three_entries =
     [regular_entry ''b.png'' [50, 50, 7], regular_entry ''a.txt'' [104, 105],
      regular_entry ''a.png'' [30, 30, 9]]"

subsection \<open>Vocabulary for the fetcher\<close>

text \<open>The answers of the data-block reads of an entry up to the first \<^verbatim>\<open>ARCHIVE_EOF\<close>.\<close>

definition blocks_before_eof :: "(int \<times> byte list) list \<Rightarrow> (int \<times> byte list) list" where
  "blocks_before_eof bs = takeWhile (\<lambda>blk. fst blk \<noteq> ARCHIVE_EOF) bs"

text \<open>
  The entries the fetcher's loop passes over on its way: their headers are usable and
  their paths do not compare equal to the path looked for.
\<close>

definition passed_over :: "('s, 'p) env \<Rightarrow> string \<Rightarrow> archive_entry list \<Rightarrow> bool" where
  "passed_over E file_name pre =
     list_all (\<lambda>x. header_rc x \<noteq> ARCHIVE_EOF \<and> \<not> header_rc x < ARCHIVE_WARN
                 \<and> compare_path E (pathname x) file_name \<noteq> 0) pre"

text \<open>
  Four archives for the fetcher: one without the page, one whose page does not
  decode, one whose page has a data block that cannot be read, and one that holds the
  page under a path in capitals, in three blocks, before an entry of the exact name.
\<close>

definition fetch_cases :: "(string \<times> archive_entry list) list" where
  "fetch_cases =
     [(''empty.cbz'', [regular_entry ''b.png'' [50, 50, 7]]),
      (''bad.cbz'', [regular_entry ''a.png'' [0, 1, 2]]),
      (''broken.cbz'',
         [\<lparr>header_rc = ARCHIVE_OK, entry_filetype = AE_IFREG, pathname = ''a.png'',
           data_blocks = [(ARCHIVE_OK, [30, 30]), (ARCHIVE_FATAL, [])]\<rparr>]),
      (''good.cbz'',
         [regular_entry ''b.png'' [50, 50, 7],
          \<lparr>header_rc = ARCHIVE_OK, entry_filetype = AE_IFREG, pathname = ''A.PNG'',
           data_blocks = [(ARCHIVE_OK, [30, 30]), (ARCHIVE_OK, []), (ARCHIVE_WARN, [9])]\<rparr>,
          regular_entry ''a.png'' [20, 20, 5]])]"

text \<open>A page of the document behind a file name, with its data pointing at \<^verbatim>\<open>a.png\<close>.\<close>

definition page_of :: "string \<Rightarrow> zathura_page" where
  "page_of name =
     \<lparr>page_index = 0,
      page_document = Some \<lparr>doc_path = name, number_of_pages = 1, doc_data = None\<rparr>,
      page_width = 30, page_height = 30, page_data = Some \<lparr>cb_page_file = ''a.png''\<rparr>\<rparr>"

text \<open>Two images whose paths differ in the case of one letter only.\<close>

definition case_pair :: "archive_entry list" where
  "case_pair = [regular_entry ''A.png'' [10, 10, 1], regular_entry ''a.png'' [20, 20, 2]]"

section \<open>Properties\<close>

lemmas archive_codes =
  ARCHIVE_EOF_def ARCHIVE_OK_def ARCHIVE_RETRY_def ARCHIVE_WARN_def
  ARCHIVE_FAILED_def ARCHIVE_FATAL_def

subsection \<open>Extensions\<close>

lemma strrchr_absent: "c \<notin> set s \<Longrightarrow> strrchr s c = None"
  by (induction s) auto

lemma strrchr_last: "c \<notin> set ext \<Longrightarrow> strrchr (pre @ c # ext) c = Some (c # ext)"
  by (induction pre) (auto simp: strrchr_absent)

lemma strcmp_eq_0_iff: "strcmp a b = 0 \<longleftrightarrow> a = b"
  by (induction a b rule: strcmp.induct) auto

lemma g_strcmp0_eq_0_iff: "g_strcmp0 x (Some ext) = 0 \<longleftrightarrow> x = Some ext"
  by (cases x) (auto simp: strcmp_eq_0_iff)

lemma foreach_extension_mem:
  "foreach_extension E e x exts pgs =
     (if \<exists>ext \<in> set exts. x = Some ext then add_page E e pgs else pgs)"
  by (induction exts) (auto simp: g_strcmp0_eq_0_iff)

text \<open>
  Claim C6. The extension the scanner takes from a path is what follows the last dot;
  a path without a dot has none. An extension and a registry string are equal for
  \<^verbatim>\<open>g_strcmp0\<close> exactly when they are the same string, letter case included.
  An entry is handed to the page body exactly when it is a regular file and its
  extension is one of the registry strings; otherwise it is passed over and the pages
  stay as they are.
\<close>

theorem get_extension_exact_match:
  "(CHR ''.'' \<notin> set ext \<longrightarrow> get_extension (Some (pre @ CHR ''.'' # ext)) = Some ext)
   \<and> (CHR ''.'' \<notin> set path \<longrightarrow> get_extension (Some path) = None)
   \<and> (g_strcmp0 x (Some ext') = 0 \<longleftrightarrow> x = Some ext')
   \<and> scan_entry E exts e pgs =
       (if entry_filetype e = AE_IFREG
           \<and> (\<exists>ext'' \<in> set exts. get_extension (Some (pathname e)) = Some ext'')
        then add_page E e pgs else pgs)"
proof -
  have "CHR ''.'' \<notin> set ext \<longrightarrow> get_extension (Some (pre @ CHR ''.'' # ext)) = Some ext"
    by (simp add: strrchr_last)
  moreover have "CHR ''.'' \<notin> set path \<longrightarrow> get_extension (Some path) = None"
    by (simp add: strrchr_absent)
  moreover have "g_strcmp0 x (Some ext') = 0 \<longleftrightarrow> x = Some ext'"
    by (rule g_strcmp0_eq_0_iff)
  moreover have "scan_entry E exts e pgs =
       (if entry_filetype e = AE_IFREG
           \<and> (\<exists>ext'' \<in> set exts. get_extension (Some (pathname e)) = Some ext'')
        then add_page E e pgs else pgs)"
    by (simp add: scan_entry_def foreach_extension_mem)
  ultimately show ?thesis by blast
qed

theorem get_extension_exact_match_witness:
  "get_extension (Some ''vol.1/page.PNG'') = Some ''PNG''
   \<and> get_extension (Some ''README'') = None
   \<and> g_strcmp0 (Some ''PNG'') (Some ''png'') \<noteq> 0
   \<and> scan_entry (ascii_env (directory [])) [''png'', ''jpg'']
        (regular_entry ''vol.1/page.PNG'' [30, 30]) [] = []
   \<and> scan_entry (ascii_env (directory [])) [''png'', ''jpg'']
        (regular_entry ''README'' [30, 30]) [] = []
   \<and> scan_entry (ascii_env (directory [])) [''png'', ''jpg'']
        (regular_entry ''p.jpg'' [30, 30]) []
       = [\<lparr>meta_file = ''p.jpg'', width = 30, height = 30\<rparr>]"
  using get_extension_exact_match [of "''PNG''" "''vol.1/page''" "''README''" "Some ''PNG''" "''png''"
      "ascii_env (directory [])" "[''png'', ''jpg'']" "regular_entry ''vol.1/page.PNG'' [30, 30]" "[]"]
    get_extension_exact_match [of "''PNG''" "''vol.1/page''" "''README''" "Some ''PNG''" "''png''"
      "ascii_env (directory [])" "[''png'', ''jpg'']" "regular_entry ''README'' [30, 30]" "[]"]
    get_extension_exact_match [of "''jpg''" "''p''" "''README''" "Some ''PNG''" "''png''"
      "ascii_env (directory [])" "[''png'', ''jpg'']" "regular_entry ''p.jpg'' [30, 30]" "[]"]
  by (simp add: regular_entry_def add_page_def probe_entry_def ascii_env_def two_byte_loader_def
      get_pixbuf_size_def archive_codes)

subsection \<open>Missing arguments\<close>

text \<open>
  Claim C10. Opening without a document, initialising without a page and rendering
  without a page, without the page's data or without a drawing context all return
  \<^verbatim>\<open>ZATHURA_ERROR_INVALID_ARGUMENTS\<close>; no call reaches the archive library and the
  drawing context is left as it was.
\<close>

theorem null_arguments_rejected:
  "cb_document_open E None = (ZATHURA_ERROR_INVALID_ARGUMENTS, None, [])
   \<and> cb_page_init None = (ZATHURA_ERROR_INVALID_ARGUMENTS, None)
   \<and> (page = None \<or> cb_pg = None \<or> cairo = None \<longrightarrow>
        cb_page_render_cairo E page cb_pg cairo printing
          = (ZATHURA_ERROR_INVALID_ARGUMENTS, cairo, []))"
  by (auto simp: cb_document_open_def cb_page_init_def cb_page_render_cairo_def
      split: option.splits)

theorem null_arguments_rejected_witness:
  "cb_document_open (ascii_env (directory [])) None = (ZATHURA_ERROR_INVALID_ARGUMENTS, None, [])
   \<and> cb_page_init None = (ZATHURA_ERROR_INVALID_ARGUMENTS, None)
   \<and> cb_page_render_cairo (ascii_env (directory [])) None (Some \<lparr>cb_page_file = ''a.png''\<rparr>) (Some []) False
       = (ZATHURA_ERROR_INVALID_ARGUMENTS, Some [], [])
   \<and> cb_page_render_cairo (ascii_env (directory []))
        (Some \<lparr>page_index = 0, page_document = None, page_width = 0, page_height = 0, page_data = None\<rparr>)
        None (Some []) False
       = (ZATHURA_ERROR_INVALID_ARGUMENTS, Some [], [])
   \<and> cb_page_render_cairo (ascii_env (directory []))
        (Some \<lparr>page_index = 0, page_document = None, page_width = 0, page_height = 0, page_data = None\<rparr>)
        (Some \<lparr>cb_page_file = ''a.png''\<rparr>) None False
       = (ZATHURA_ERROR_INVALID_ARGUMENTS, None, [])"
  using null_arguments_rejected [of "ascii_env (directory [])" None "Some \<lparr>cb_page_file = ''a.png''\<rparr>" "Some []" False]
    null_arguments_rejected [of "ascii_env (directory [])"
       "Some \<lparr>page_index = 0, page_document = None, page_width = 0, page_height = 0, page_data = None\<rparr>"
       None "Some []" False]
    null_arguments_rejected [of "ascii_env (directory [])"
       "Some \<lparr>page_index = 0, page_document = None, page_width = 0, page_height = 0, page_data = None\<rparr>"
       "Some \<lparr>cb_page_file = ''a.png''\<rparr>" None False]
  by simp

subsection \<open>The path comparator\<close>

lemma strcmp_swap: "(strcmp a b < 0) = (strcmp b a > 0)"
proof (induction a b rule: strcmp.induct)
  case (4 x xs y ys)
  have "x \<noteq> y \<Longrightarrow> (of_char x :: nat) < of_char y \<or> (of_char y :: nat) < of_char x"
    by (metis of_char_eq_iff linorder_neqE_nat)
  with 4 show ?case by auto
qed simp_all

lemma strcmp_trans: "strcmp a b \<le> 0 \<Longrightarrow> strcmp b c \<le> 0 \<Longrightarrow> strcmp a c \<le> 0"
proof (induction a b arbitrary: c rule: strcmp.induct)
  case 1
  then show ?case by simp
next
  case (2 y ys)
  then show ?case by (cases c) simp_all
next
  case (3 x xs)
  then show ?case by simp
next
  case (4 x xs y ys)
  show ?case
  proof (cases c)
    case Nil
    with 4 show ?thesis by simp
  next
    case (Cons z zs)
    with 4 show ?thesis
      by (auto split: if_splits)
  qed
qed

lemma collation_ok_strcmp: "collation_ok strcmp"
  unfolding collation_ok_def using strcmp_swap strcmp_trans by blast

text \<open>
  Claim C7. The path comparator is the collation of the case-folded operands. When
  the collation orders the strings (sign turning around under exchange, transitive),
  so does the comparator: every string equals itself, any two strings are comparable,
  the order is transitive, and two strings with the same case-folded form are
  interchangeable and equal to each other. In particular \<^verbatim>\<open>A.jpg\<close> comes before
  \<^verbatim>\<open>b.JPG\<close> exactly when \<^verbatim>\<open>a.jpg\<close> collates before \<^verbatim>\<open>b.jpg\<close>.
\<close>

theorem compare_path_casefold_collate:
  assumes "collation_ok (utf8_collate E)"
  shows "compare_path E a b = utf8_collate E (utf8_casefold E a) (utf8_casefold E b)
    \<and> compare_path E a a = 0
    \<and> ((compare_path E a b < 0) = (compare_path E b a > 0))
    \<and> (compare_path E a b \<le> 0 \<or> compare_path E b a \<le> 0)
    \<and> (compare_path E a b \<le> 0 \<and> compare_path E b c \<le> 0 \<longrightarrow> compare_path E a c \<le> 0)
    \<and> (utf8_casefold E a = utf8_casefold E a' \<longrightarrow>
          compare_path E a b = compare_path E a' b \<and> compare_path E b a = compare_path E b a'
          \<and> compare_path E a a' = 0)
    \<and> (utf8_casefold E ''A.jpg'' = ''a.jpg'' \<and> utf8_casefold E ''b.JPG'' = ''b.jpg'' \<longrightarrow>
          (compare_path E ''A.jpg'' ''b.JPG'' < 0) = (utf8_collate E ''a.jpg'' ''b.jpg'' < 0))"
proof -
  let ?col = "utf8_collate E"
  from assms have swap: "\<And>x y. (?col x y < 0) = (?col y x > 0)"
    and trans: "\<And>x y z. ?col x y \<le> 0 \<Longrightarrow> ?col y z \<le> 0 \<Longrightarrow> ?col x z \<le> 0"
    unfolding collation_ok_def by blast+
  have refl: "\<And>x. ?col x x = 0"
    using swap by (metis less_asym linorder_neqE_linordered_idom)
  have total: "\<And>x y. ?col x y \<le> 0 \<or> ?col y x \<le> 0"
    using swap by (metis not_le less_asym)
  show ?thesis
    unfolding compare_path_def Let_def
    using swap trans refl total by (intro conjI impI) (simp_all, blast)
qed

theorem compare_path_casefold_collate_witness:
  "compare_path (ascii_env (directory [])) ''A.jpg'' ''b.JPG'' < 0
   \<and> compare_path (ascii_env (directory [])) ''b.JPG'' ''A.jpg'' > 0
   \<and> compare_path (ascii_env (directory [])) ''A.jpg'' ''a.JPG'' = 0
   \<and> strcmp ''a.jpg'' ''B.JPG'' > 0
   \<and> compare_path (ascii_env (directory [])) ''a.jpg'' ''B.JPG'' < 0"
proof -
  have ok: "collation_ok (utf8_collate (ascii_env (directory [])))"
    by (simp add: ascii_env_def collation_ok_strcmp)
  have f1: "utf8_casefold (ascii_env (directory [])) ''A.jpg'' = ''a.jpg''"
    and f2: "utf8_casefold (ascii_env (directory [])) ''b.JPG'' = ''b.jpg''"
    and f3: "utf8_casefold (ascii_env (directory [])) ''a.JPG'' = ''a.jpg''"
    and f4: "utf8_casefold (ascii_env (directory [])) ''B.JPG'' = ''b.jpg''"
    and f5: "utf8_casefold (ascii_env (directory [])) ''a.jpg'' = ''a.jpg''"
    unfolding ascii_env_def by (simp, code_simp)+
  have c: "utf8_collate (ascii_env (directory [])) ''a.jpg'' ''b.jpg'' < 0"
    by (simp add: ascii_env_def)
  show ?thesis
    using compare_path_casefold_collate [OF ok, of "''A.jpg''" "''b.JPG''" "''A.jpg''" "''a.JPG''"]
      compare_path_casefold_collate [OF ok, of "''a.jpg''" "''B.JPG''" "''A.jpg''" "''a.JPG''"]
      f1 f2 f3 f4 f5 c
    by simp
qed

subsection \<open>Evaluating the instance\<close>

lemmas ascii_env_simps =
  ascii_env_def two_byte_loader_def two_byte_decode_def regular_entry_def

lemmas scan_simps =
  cb_document_open_def read_archive_def scan_entry_def add_page_def probe_entry_def
  get_pixbuf_size_def compare_pages_def compare_path_def

subsection \<open>Page indices\<close>

lemma cb_document_open_OK_D:
  assumes "cb_document_open E (Some d0) = (ZATHURA_ERROR_OK, d', calls)"
  shows "\<exists>cb. d' = Some (d0\<lparr>number_of_pages := length (pages cb), doc_data := Some cb\<rparr>)"
  using assms
  by (auto simp: cb_document_open_def Let_def split: if_splits prod.splits bool.splits)

text \<open>
  Claim C8. On a document that was opened successfully, initialising a page whose
  index is not below the number of pages fails with \<^verbatim>\<open>ZATHURA_ERROR_UNKNOWN\<close>, the
  only failure code of this path, and leaves the page, and with it the document it
  points to, as it was; every index below the number of pages still initialises, with
  the size and the file of the page at that index.
\<close>

theorem page_index_out_of_range:
  assumes "cb_document_open E (Some d0) = (ZATHURA_ERROR_OK, Some d, calls)"
    and "page_document p = Some d"
    and "number_of_pages d \<le> page_index p"
  shows "\<exists>cb. doc_data d = Some cb \<and> number_of_pages d = length (pages cb)
    \<and> cb_page_init (Some p) = (ZATHURA_ERROR_UNKNOWN, Some p)
    \<and> (\<forall>i < number_of_pages d.
          cb_page_init (Some (p\<lparr>page_index := i\<rparr>))
            = (ZATHURA_ERROR_OK,
               Some (p\<lparr>page_index := i,
                       page_width := width (pages cb ! i),
                       page_height := height (pages cb ! i),
                       page_data := Some \<lparr>cb_page_file = meta_file (pages cb ! i)\<rparr>\<rparr>)))"
proof -
  from cb_document_open_OK_D [OF assms(1)] obtain cb
    where d: "d = d0\<lparr>number_of_pages := length (pages cb), doc_data := Some cb\<rparr>"
    by auto
  have "cb_page_init (Some p) = (ZATHURA_ERROR_UNKNOWN, Some p)"
    using assms(2,3) d by (simp add: cb_page_init_def girara_list_nth_def)
  moreover have "\<forall>i < number_of_pages d.
          cb_page_init (Some (p\<lparr>page_index := i\<rparr>))
            = (ZATHURA_ERROR_OK,
               Some (p\<lparr>page_index := i,
                       page_width := width (pages cb ! i),
                       page_height := height (pages cb ! i),
                       page_data := Some \<lparr>cb_page_file = meta_file (pages cb ! i)\<rparr>\<rparr>))"
    using assms(2) d by (simp add: cb_page_init_def girara_list_nth_def)
  ultimately show ?thesis using d by simp
qed

lemma open_two_pages:
  "cb_document_open (ascii_env (directory [(''x.cbz'', two_pages)]))
     (Some \<lparr>doc_path = ''x.cbz'', number_of_pages = 0, doc_data = None\<rparr>)
   = (ZATHURA_ERROR_OK,
      Some \<lparr>doc_path = ''x.cbz'', number_of_pages = 2,
            doc_data = Some \<lparr>pages = [\<lparr>meta_file = ''a.png'', width = 30, height = 30\<rparr>,
                                      \<lparr>meta_file = ''b.png'', width = 50, height = 50\<rparr>]\<rparr>\<rparr>,
      [Archive_read_new, Archive_read_open_filename, Archive_read_close, Archive_read_free])"
  by (simp add: scan_simps ascii_env_simps two_pages_def archive_codes ascii_casefold_def ascii_tolower_def)


theorem page_index_out_of_range_witness:
  "cb_document_open (ascii_env (directory [(''x.cbz'', two_pages)]))
     (Some \<lparr>doc_path = ''x.cbz'', number_of_pages = 0, doc_data = None\<rparr>)
   = (ZATHURA_ERROR_OK,
      Some \<lparr>doc_path = ''x.cbz'', number_of_pages = 2,
            doc_data = Some \<lparr>pages = [\<lparr>meta_file = ''a.png'', width = 30, height = 30\<rparr>,
                                      \<lparr>meta_file = ''b.png'', width = 50, height = 50\<rparr>]\<rparr>\<rparr>,
      [Archive_read_new, Archive_read_open_filename, Archive_read_close, Archive_read_free])
   \<and> cb_page_init (Some \<lparr>page_index = 2,
       page_document = Some \<lparr>doc_path = ''x.cbz'', number_of_pages = 2,
            doc_data = Some \<lparr>pages = [\<lparr>meta_file = ''a.png'', width = 30, height = 30\<rparr>,
                                      \<lparr>meta_file = ''b.png'', width = 50, height = 50\<rparr>]\<rparr>\<rparr>,
       page_width = 0, page_height = 0, page_data = None\<rparr>)
   = (ZATHURA_ERROR_UNKNOWN, Some \<lparr>page_index = 2,
       page_document = Some \<lparr>doc_path = ''x.cbz'', number_of_pages = 2,
            doc_data = Some \<lparr>pages = [\<lparr>meta_file = ''a.png'', width = 30, height = 30\<rparr>,
                                      \<lparr>meta_file = ''b.png'', width = 50, height = 50\<rparr>]\<rparr>\<rparr>,
       page_width = 0, page_height = 0, page_data = None\<rparr>)
   \<and> cb_page_init (Some \<lparr>page_index = 1,
       page_document = Some \<lparr>doc_path = ''x.cbz'', number_of_pages = 2,
            doc_data = Some \<lparr>pages = [\<lparr>meta_file = ''a.png'', width = 30, height = 30\<rparr>,
                                      \<lparr>meta_file = ''b.png'', width = 50, height = 50\<rparr>]\<rparr>\<rparr>,
       page_width = 0, page_height = 0, page_data = None\<rparr>)
   = (ZATHURA_ERROR_OK, Some \<lparr>page_index = 1,
       page_document = Some \<lparr>doc_path = ''x.cbz'', number_of_pages = 2,
            doc_data = Some \<lparr>pages = [\<lparr>meta_file = ''a.png'', width = 30, height = 30\<rparr>,
                                      \<lparr>meta_file = ''b.png'', width = 50, height = 50\<rparr>]\<rparr>\<rparr>,
       page_width = 50, page_height = 50, page_data = Some \<lparr>cb_page_file = ''b.png''\<rparr>\<rparr>)"
proof -
  let ?d = "\<lparr>doc_path = ''x.cbz'', number_of_pages = 2,
            doc_data = Some \<lparr>pages = [\<lparr>meta_file = ''a.png'', width = 30, height = 30\<rparr>,
                                      \<lparr>meta_file = ''b.png'', width = 50, height = 50\<rparr>]\<rparr>\<rparr>"
  let ?p = "\<lparr>page_index = 2, page_document = Some ?d,
       page_width = 0, page_height = 0, page_data = None\<rparr>"
  have "\<exists>cb. doc_data ?d = Some cb \<and> number_of_pages ?d = length (pages cb)
    \<and> cb_page_init (Some ?p) = (ZATHURA_ERROR_UNKNOWN, Some ?p)
    \<and> (\<forall>i < number_of_pages ?d.
          cb_page_init (Some (?p\<lparr>page_index := i\<rparr>))
            = (ZATHURA_ERROR_OK,
               Some (?p\<lparr>page_index := i,
                       page_width := width (pages cb ! i),
                       page_height := height (pages cb ! i),
                       page_data := Some \<lparr>cb_page_file = meta_file (pages cb ! i)\<rparr>\<rparr>)))"
    by (rule page_index_out_of_range [OF open_two_pages]) simp_all
  then have "cb_page_init (Some ?p) = (ZATHURA_ERROR_UNKNOWN, Some ?p)"
    and "cb_page_init (Some (?p\<lparr>page_index := 1\<rparr>))
            = (ZATHURA_ERROR_OK,
               Some (?p\<lparr>page_index := 1, page_width := 50, page_height := 50,
                       page_data := Some \<lparr>cb_page_file = ''b.png''\<rparr>\<rparr>))"
    by auto
  with open_two_pages show ?thesis by simp
qed

subsection \<open>The life cycle of the archive handle\<close>

lemma scan_entries_calls:
  "scan_entries E exts es pgs = (ok, pgs', calls) \<Longrightarrow>
     calls = (if ok then [] else [Archive_read_close, Archive_read_free])"
  by (induction es arbitrary: pgs) (auto simp: Let_def split: if_splits)

lemma read_archive_releases:
  "read_archive E cb_doc name exts = (ok, cb_doc', calls) \<Longrightarrow>
     calls = [] \<or> last calls = Archive_read_free"
  by (auto simp: read_archive_def Let_def split: if_splits prod.splits bool.splits
      dest: scan_entries_calls)

lemma find_entry_calls: "snd (find_entry E f es) = [Archive_read_close, Archive_read_free]"
  by (induction es) (auto simp: Let_def split: option.splits)

lemma load_pixbuf_from_archive_releases:
  "open_rc (archive_file E name) = ARCHIVE_OK \<Longrightarrow>
     load_pixbuf_from_archive E (Some name) (Some f) = (res, calls) \<Longrightarrow>
     calls = [] \<or> last calls = Archive_read_free"
  using find_entry_calls [of E f "entries (archive_file E name)"]
  by (auto simp: load_pixbuf_from_archive_def Let_def split: if_splits prod.splits)

text \<open>
  Claim C9. When the archive cannot be opened, the fetcher returns with the handle
  allocated and neither closed nor freed, while the scanner frees it on the same
  path. (On every other path both release the handle, as the two lemmas above say.)
\<close>

theorem fetch_open_failure_keeps_handle:
  "load_pixbuf_from_archive (ascii_env (directory [])) (Some ''missing.cbz'') (Some ''a.png'')
     = (None, [Archive_read_new, Archive_read_open_filename])
   \<and> read_archive (ascii_env (directory [])) \<lparr>pages = []\<rparr> ''missing.cbz'' [''png'', ''jpg'']
     = (False, \<lparr>pages = []\<rparr>, [Archive_read_new, Archive_read_open_filename, Archive_read_free])"
  by (simp add: load_pixbuf_from_archive_def read_archive_def ascii_env_def archive_codes)

subsection \<open>Read errors during the scan\<close>

lemma scan_entries_header_error:
  assumes "\<forall>x \<in> set pre. header_rc x \<noteq> ARCHIVE_EOF \<and> \<not> header_rc x < ARCHIVE_WARN"
    and "header_rc e < ARCHIVE_WARN"
  shows "fst (scan_entries E exts (pre @ e # rest) pgs) = False"
  using assms by (induction pre arbitrary: pgs) (auto simp: Let_def archive_codes)

lemma cb_document_open_header_error:
  assumes "archive_file E (doc_path d) = \<lparr>open_rc = ARCHIVE_OK, entries = pre @ e # rest\<rparr>"
    and "\<forall>x \<in> set pre. header_rc x \<noteq> ARCHIVE_EOF \<and> \<not> header_rc x < ARCHIVE_WARN"
    and "header_rc e < ARCHIVE_WARN"
  shows "\<exists>calls. cb_document_open E (Some d) = (ZATHURA_ERROR_UNKNOWN, Some d, calls)"
  using scan_entries_header_error [OF assms(2,3), of E "concat (pixbuf_formats E)" rest "[]"] assms(1)
  by (auto simp: cb_document_open_def read_archive_def Let_def split: prod.splits bool.splits)

text \<open>
  Claim C2. A header that cannot be read makes the open fail, as the two lemmas above
  say. A data block that cannot be read does not: the scan's inner loop compares the
  return code with \<^verbatim>\<open>ARCHIVE_EOF\<close> only, the entry is dropped, and the open succeeds
  with the pages of the entries before and after it.
\<close>

theorem scan_ignores_data_block_error:
  "cb_document_open (ascii_env (directory [(''x.cbz'', failing_block)]))
     (Some \<lparr>doc_path = ''x.cbz'', number_of_pages = 0, doc_data = None\<rparr>)
   = (ZATHURA_ERROR_OK,
      Some \<lparr>doc_path = ''x.cbz'', number_of_pages = 2,
            doc_data = Some \<lparr>pages = [\<lparr>meta_file = ''a.png'', width = 30, height = 30\<rparr>,
                                      \<lparr>meta_file = ''c.png'', width = 40, height = 40\<rparr>]\<rparr>\<rparr>,
      [Archive_read_new, Archive_read_open_filename, Archive_read_close, Archive_read_free])"
  by (simp add: scan_simps ascii_env_simps failing_block_def archive_codes
      ascii_casefold_def ascii_tolower_def)

subsection \<open>Entries that do not decode\<close>

text \<open>
  Claim C5. An entry with a usable header that is a regular file and whose extension
  is in the registry, but whose probe does not end with a positive width and a
  positive height, adds nothing to the pages, and the scan goes on with the entries
  after it as if it were absent. An archive holding only such an entry opens
  successfully with no pages.
\<close>

theorem undecodable_entry_excluded:
  assumes "header_rc e \<noteq> ARCHIVE_EOF" and "\<not> header_rc e < ARCHIVE_WARN"
    and "entry_filetype e = AE_IFREG"
    and "get_extension (Some (pathname e)) = Some ext" and "ext \<in> set exts"
    and "\<not> (width (probe_entry (loader E) e) > 0 \<and> height (probe_entry (loader E) e) > 0)"
  shows "scan_entry E exts e pgs = pgs
    \<and> scan_entries E exts (e # es) pgs = scan_entries E exts es pgs
    \<and> (archive_read_new_ok E \<and> list_new_ok E \<and> sorted_list_new_ok E
         \<and> exts = concat (pixbuf_formats E)
         \<and> archive_file E (doc_path d) = \<lparr>open_rc = ARCHIVE_OK, entries = [e]\<rparr>
       \<longrightarrow> cb_document_open E (Some d)
            = (ZATHURA_ERROR_OK,
               Some (d\<lparr>number_of_pages := 0, doc_data := Some \<lparr>pages = []\<rparr>\<rparr>),
               [Archive_read_new, Archive_read_open_filename, Archive_read_close,
                Archive_read_free]))"
proof -
  have one: "\<And>ps. scan_entry E exts e ps = ps"
    using assms(3-6) by (auto simp: scan_entry_def foreach_extension_mem add_page_def Let_def)
  have two: "scan_entries E exts (e # es) pgs = scan_entries E exts es pgs"
    using assms(1,2) one by (simp add: Let_def)
  have three: "scan_entries E exts [e] [] = (True, [], [])"
    using assms(1,2) one by (simp add: Let_def)
  show ?thesis
    using one two three
    by (auto simp: cb_document_open_def read_archive_def Let_def)
qed


theorem undecodable_entry_excluded_witness:
  "cb_document_open (ascii_env (directory [(''x.cbz'', [regular_entry ''corrupt.png'' [0, 1, 2, 3]])]))
     (Some \<lparr>doc_path = ''x.cbz'', number_of_pages = 0, doc_data = None\<rparr>)
   = (ZATHURA_ERROR_OK,
      Some \<lparr>doc_path = ''x.cbz'', number_of_pages = 0, doc_data = Some \<lparr>pages = []\<rparr>\<rparr>,
      [Archive_read_new, Archive_read_open_filename, Archive_read_close, Archive_read_free])
   \<and> scan_entries (ascii_env (directory [])) [''png'', ''jpg'']
        [regular_entry ''corrupt.png'' [0, 1, 2, 3], regular_entry ''a.png'' [30, 30, 9]] []
     = (True, [\<lparr>meta_file = ''a.png'', width = 30, height = 30\<rparr>], [])
   \<and> scan_entry (ascii_env (directory [])) [''png'', ''jpg''] (regular_entry ''cut.png'' [30]) [] = []
   \<and> scan_entry (ascii_env (directory [])) [''png'', ''jpg''] (regular_entry ''empty.png'' []) [] = []"
proof -
  let ?E = "ascii_env (directory [(''x.cbz'', [regular_entry ''corrupt.png'' [0, 1, 2, 3]])])"
  let ?F = "ascii_env (directory [])"
  have p1: "\<And>files. \<not> (width (probe_entry (loader (ascii_env files)) (regular_entry ''corrupt.png'' [0, 1, 2, 3])) > 0
      \<and> height (probe_entry (loader (ascii_env files)) (regular_entry ''corrupt.png'' [0, 1, 2, 3])) > 0)"
    and p2: "\<not> (width (probe_entry (loader ?F) (regular_entry ''cut.png'' [30])) > 0
      \<and> height (probe_entry (loader ?F) (regular_entry ''cut.png'' [30])) > 0)"
    and p3: "\<not> (width (probe_entry (loader ?F) (regular_entry ''empty.png'' [])) > 0
      \<and> height (probe_entry (loader ?F) (regular_entry ''empty.png'' [])) > 0)"
    by (simp_all add: probe_entry_def ascii_env_simps get_pixbuf_size_def archive_codes)
  have a: "cb_document_open ?E (Some \<lparr>doc_path = ''x.cbz'', number_of_pages = 0, doc_data = None\<rparr>)
     = (ZATHURA_ERROR_OK,
      Some \<lparr>doc_path = ''x.cbz'', number_of_pages = 0, doc_data = Some \<lparr>pages = []\<rparr>\<rparr>,
      [Archive_read_new, Archive_read_open_filename, Archive_read_close, Archive_read_free])"
    using undecodable_entry_excluded [of "regular_entry ''corrupt.png'' [0, 1, 2, 3]" "''png''"
        "[''png'', ''jpg'']" ?E "[]" "[]" "\<lparr>doc_path = ''x.cbz'', number_of_pages = 0, doc_data = None\<rparr>"] p1
    by (simp add: ascii_env_simps archive_codes)
  have b: "scan_entries ?F [''png'', ''jpg'']
        [regular_entry ''corrupt.png'' [0, 1, 2, 3], regular_entry ''a.png'' [30, 30, 9]] []
     = (True, [\<lparr>meta_file = ''a.png'', width = 30, height = 30\<rparr>], [])"
    using undecodable_entry_excluded [of "regular_entry ''corrupt.png'' [0, 1, 2, 3]" "''png''"
        "[''png'', ''jpg'']" ?F "[]" "[regular_entry ''a.png'' [30, 30, 9]]"
        "\<lparr>doc_path = ''x.cbz'', number_of_pages = 0, doc_data = None\<rparr>"] p1
    by (simp add: scan_simps ascii_env_simps archive_codes)
  have c: "scan_entry ?F [''png'', ''jpg''] (regular_entry ''cut.png'' [30]) [] = []"
    using undecodable_entry_excluded [of "regular_entry ''cut.png'' [30]" "''png''"
        "[''png'', ''jpg'']" ?F "[]" "[]" "\<lparr>doc_path = ''x.cbz'', number_of_pages = 0, doc_data = None\<rparr>"] p2
    by (simp add: regular_entry_def archive_codes)
  have d: "scan_entry ?F [''png'', ''jpg''] (regular_entry ''empty.png'' []) [] = []"
    using undecodable_entry_excluded [of "regular_entry ''empty.png'' []" "''png''"
        "[''png'', ''jpg'']" ?F "[]" "[]" "\<lparr>doc_path = ''x.cbz'', number_of_pages = 0, doc_data = None\<rparr>"] p3
    by (simp add: regular_entry_def archive_codes)
  from a b c d show ?thesis by simp
qed

subsection \<open>The scenario of three entries\<close>



text \<open>
  When the first block is taken without a size being announced, the second block is
  written too and decides in the same way.
\<close>

lemma probe_entry_two_blocks:
  assumes "c1 \<noteq> []" and "c2 \<noteq> []"
    and "data_blocks e = [(ARCHIVE_OK, c1), (ARCHIVE_OK, c2)]"
    and "loader_write L (loader_new L) c1 = (True, [], s1)"
    and "loader_write L s1 c2 = (ok, sizes, s2)"
    and "sizes @ loader_close L s2 = [(w, h)]"
  shows "probe_entry L e = \<lparr>meta_file = pathname e, width = w, height = h\<rparr>"
proof -
  let ?meta = "\<lparr>meta_file = pathname e, width = 0, height = 0\<rparr>"
  have "read_data_blocks L (data_blocks e) (loader_new L) ?meta
      = (s2, foldl get_pixbuf_size ?meta sizes)"
    using assms(1-5) by (simp add: Let_def archive_codes)
  then have "probe_entry L e = foldl get_pixbuf_size ?meta (sizes @ loader_close L s2)"
    by (simp add: probe_entry_def)
  with assms(6) show ?thesis by (simp add: get_pixbuf_size_def)
qed




subsection \<open>Fetching a page\<close>

lemma add_data_blocks_eq:
  "add_data_blocks bs mis =
     (if \<exists>blk \<in> set (blocks_before_eof bs). fst blk < ARCHIVE_WARN then None
      else Some (mis @ concat (map snd (blocks_before_eof bs))))"
proof (induction bs arbitrary: mis)
  case Nil
  then show ?case by (simp add: blocks_before_eof_def)
next
  case (Cons b bs)
  obtain r buf where b: "b = (r, buf)" by (cases b)
  from Cons.IH show ?case
    unfolding blocks_before_eof_def b by auto
qed

lemma find_entry_passed_over:
  "passed_over E f pre \<Longrightarrow> find_entry E f (pre @ es) = find_entry E f es"
  by (induction pre) (simp_all add: passed_over_def Let_def)

lemma fst_find_entry_match:
  assumes "memory_input_stream_new_ok E"
    and "header_rc e \<noteq> ARCHIVE_EOF" and "\<not> header_rc e < ARCHIVE_WARN"
    and "compare_path E (pathname e) f = 0"
  shows "fst (find_entry E f (e # rest)) =
     (if \<exists>blk \<in> set (blocks_before_eof (data_blocks e)). fst blk < ARCHIVE_WARN then None
      else pixbuf_new_from_stream E (concat (map snd (blocks_before_eof (data_blocks e)))))"
  using assms by (simp add: Let_def add_data_blocks_eq split: option.splits)

lemma fst_find_entry_end:
  "rest = [] \<or> header_rc (hd rest) = ARCHIVE_EOF \<or> header_rc (hd rest) < ARCHIVE_WARN
     \<Longrightarrow> fst (find_entry E f rest) = None"
  by (cases rest) (auto simp: Let_def)

lemma fst_load_pixbuf_from_archive:
  "fst (load_pixbuf_from_archive E (Some name) (Some f)) =
     (if archive_read_new_ok E \<and> open_rc (archive_file E name) = ARCHIVE_OK
      then fst (find_entry E f (entries (archive_file E name))) else None)"
  by (simp add: load_pixbuf_from_archive_def Let_def split: prod.splits)

lemma snd_load_pixbuf_from_archive:
  assumes "archive_read_new_ok E" and "open_rc (archive_file E name) = ARCHIVE_OK"
  shows "snd (load_pixbuf_from_archive E (Some name) (Some f))
    = [Archive_read_new, Archive_read_open_filename, Archive_read_close, Archive_read_free]"
  using assms find_entry_calls [of E f "entries (archive_file E name)"]
  by (auto simp: load_pixbuf_from_archive_def Let_def split: prod.splits)

text \<open>
  Claim C3, as the code has it. With the allocations succeeding, the fetcher returns
  no image when the archive cannot be opened; when the entries before the end of the
  archive, or before a header that cannot be read, are all passed over; when a data
  block of the first matching entry cannot be read; and when the content of that entry,
  the blocks before its end joined in order, does not decode. Otherwise it returns the
  decoded content of the first matching entry. Rendering is
  \<^verbatim>\<open>ZATHURA_ERROR_UNKNOWN\<close> with the drawing context untouched for every one of the
  failures alike, and \<^verbatim>\<open>ZATHURA_ERROR_OK\<close> with the image painted otherwise.
\<close>

theorem fetch_failures_alike:
  assumes "archive_read_new_ok E" and "memory_input_stream_new_ok E"
    and "a = archive_file E name"
    and "res = fst (load_pixbuf_from_archive E (Some name) (Some f))"
    and "passed_over E f pre"
  shows "(open_rc a \<noteq> ARCHIVE_OK \<longrightarrow> res = None)
    \<and> (open_rc a = ARCHIVE_OK \<and> entries a = pre @ rest
         \<and> (rest = [] \<or> header_rc (hd rest) = ARCHIVE_EOF \<or> header_rc (hd rest) < ARCHIVE_WARN)
       \<longrightarrow> res = None)
    \<and> (open_rc a = ARCHIVE_OK \<and> entries a = pre @ e # rest
         \<and> header_rc e \<noteq> ARCHIVE_EOF \<and> \<not> header_rc e < ARCHIVE_WARN
         \<and> compare_path E (pathname e) f = 0
       \<longrightarrow> res =
           (if \<exists>blk \<in> set (blocks_before_eof (data_blocks e)). fst blk < ARCHIVE_WARN then None
            else pixbuf_new_from_stream E (concat (map snd (blocks_before_eof (data_blocks e))))))
    \<and> (page_document p = Some d \<and> doc_path d = name \<and> cb_page_file cp = f
       \<longrightarrow> cb_page_render_cairo E (Some p) (Some cp) (Some c) printing
           = (case res of
                None \<Rightarrow> ZATHURA_ERROR_UNKNOWN
              | Some pixbuf \<Rightarrow> ZATHURA_ERROR_OK,
              case res of None \<Rightarrow> Some c | Some pixbuf \<Rightarrow> Some (c @ [pixbuf]),
              snd (load_pixbuf_from_archive E (Some name) (Some f))))"
proof -
  have res: "open_rc a = ARCHIVE_OK \<Longrightarrow> res = fst (find_entry E f (entries a))"
    and res': "open_rc a \<noteq> ARCHIVE_OK \<Longrightarrow> res = None"
    using assms(1,3,4) by (simp_all add: fst_load_pixbuf_from_archive)
  have c2: "open_rc a = ARCHIVE_OK \<and> entries a = pre @ rest
         \<and> (rest = [] \<or> header_rc (hd rest) = ARCHIVE_EOF \<or> header_rc (hd rest) < ARCHIVE_WARN)
       \<longrightarrow> res = None"
    using res find_entry_passed_over [OF assms(5), of rest] fst_find_entry_end [of rest E f]
    by auto
  have c3: "open_rc a = ARCHIVE_OK \<and> entries a = pre @ e # rest
         \<and> header_rc e \<noteq> ARCHIVE_EOF \<and> \<not> header_rc e < ARCHIVE_WARN
         \<and> compare_path E (pathname e) f = 0
       \<longrightarrow> res =
           (if \<exists>blk \<in> set (blocks_before_eof (data_blocks e)). fst blk < ARCHIVE_WARN then None
            else pixbuf_new_from_stream E (concat (map snd (blocks_before_eof (data_blocks e)))))"
    using res find_entry_passed_over [OF assms(5), of "e # rest"]
      fst_find_entry_match [OF assms(2), of e f rest]
    by auto
  have c4: "page_document p = Some d \<and> doc_path d = name \<and> cb_page_file cp = f
       \<longrightarrow> cb_page_render_cairo E (Some p) (Some cp) (Some c) printing
           = (case res of
                None \<Rightarrow> ZATHURA_ERROR_UNKNOWN
              | Some pixbuf \<Rightarrow> ZATHURA_ERROR_OK,
              case res of None \<Rightarrow> Some c | Some pixbuf \<Rightarrow> Some (c @ [pixbuf]),
              snd (load_pixbuf_from_archive E (Some name) (Some f)))"
    using assms(4) by (auto simp: cb_page_render_cairo_def split: prod.splits option.splits)
  from res' c2 c3 c4 show ?thesis by blast
qed

text \<open>
  The causes of failure are not told apart: a page that is not in the archive, a page
  that does not decode, a page with an unreadable block and an archive that does not
  open all give the same result.
\<close>

theorem fetch_failures_not_told_apart:
  "fst (load_pixbuf_from_archive (ascii_env (directory fetch_cases)) (Some ''empty.cbz'') (Some ''a.png''))
     = fst (load_pixbuf_from_archive (ascii_env (directory fetch_cases)) (Some ''bad.cbz'') (Some ''a.png''))
   \<and> fst (load_pixbuf_from_archive (ascii_env (directory fetch_cases)) (Some ''empty.cbz'') (Some ''a.png''))
     = fst (load_pixbuf_from_archive (ascii_env (directory fetch_cases)) (Some ''broken.cbz'') (Some ''a.png''))
   \<and> fst (load_pixbuf_from_archive (ascii_env (directory fetch_cases)) (Some ''empty.cbz'') (Some ''a.png''))
     = fst (load_pixbuf_from_archive (ascii_env (directory fetch_cases)) (Some ''missing.cbz'') (Some ''a.png''))
   \<and> cb_page_render_cairo (ascii_env (directory fetch_cases)) (Some (page_of ''empty.cbz''))
        (Some \<lparr>cb_page_file = ''a.png''\<rparr>) (Some []) False
     = cb_page_render_cairo (ascii_env (directory fetch_cases)) (Some (page_of ''bad.cbz''))
        (Some \<lparr>cb_page_file = ''a.png''\<rparr>) (Some []) False
   \<and> fst (cb_page_render_cairo (ascii_env (directory fetch_cases)) (Some (page_of ''empty.cbz''))
        (Some \<lparr>cb_page_file = ''a.png''\<rparr>) (Some []) False) = ZATHURA_ERROR_UNKNOWN"
  by (simp add: load_pixbuf_from_archive_def cb_page_render_cairo_def page_of_def fetch_cases_def
      ascii_env_simps compare_path_def ascii_casefold_def ascii_tolower_def archive_codes)


theorem fetch_failures_alike_witness:
  "fst (load_pixbuf_from_archive (ascii_env (directory fetch_cases)) (Some ''good.cbz'') (Some ''a.png''))
     = Some [30, 30, 9]
   \<and> cb_page_render_cairo (ascii_env (directory fetch_cases)) (Some (page_of ''good.cbz''))
        (Some \<lparr>cb_page_file = ''a.png''\<rparr>) (Some []) False
     = (ZATHURA_ERROR_OK, Some [[30, 30, 9]],
        [Archive_read_new, Archive_read_open_filename, Archive_read_close, Archive_read_free])
   \<and> fst (load_pixbuf_from_archive (ascii_env (directory fetch_cases)) (Some ''empty.cbz'') (Some ''a.png''))
     = None
   \<and> fst (load_pixbuf_from_archive (ascii_env (directory fetch_cases)) (Some ''broken.cbz'') (Some ''a.png''))
     = None
   \<and> fst (load_pixbuf_from_archive (ascii_env (directory fetch_cases)) (Some ''missing.cbz'') (Some ''a.png''))
     = None"
proof -
  let ?E = "ascii_env (directory fetch_cases)"
  let ?b = "regular_entry ''b.png'' [50, 50, 7]"
  let ?A = "\<lparr>header_rc = ARCHIVE_OK, entry_filetype = AE_IFREG, pathname = ''A.PNG'',
           data_blocks = [(ARCHIVE_OK, [30, 30]), (ARCHIVE_OK, []), (ARCHIVE_WARN, [9])]\<rparr>"
  let ?broken = "\<lparr>header_rc = ARCHIVE_OK, entry_filetype = AE_IFREG, pathname = ''a.png'',
           data_blocks = [(ARCHIVE_OK, [30, 30]), (ARCHIVE_FATAL, [])]\<rparr>"
  have fold: "utf8_casefold ?E ''A.PNG'' = ''a.png''" "utf8_casefold ?E ''a.png'' = ''a.png''"
    "utf8_casefold ?E ''b.png'' = ''b.png''"
    unfolding ascii_env_def by (simp, code_simp)+
  have over: "passed_over ?E ''a.png'' [?b]" "passed_over ?E ''a.png'' []"
    using fold by (simp_all add: passed_over_def compare_path_def regular_entry_def archive_codes)
      (simp add: ascii_env_def)
  have match: "compare_path ?E ''A.PNG'' ''a.png'' = 0" "compare_path ?E ''a.png'' ''a.png'' = 0"
    using fold by (simp_all add: compare_path_def) (simp_all add: ascii_env_def)
  note inst = fetch_failures_alike [where E = ?E and f = "''a.png''" and cp = "\<lparr>cb_page_file = ''a.png''\<rparr>"
      and c = "[]" and printing = False, OF _ _ refl refl]
  have good: "fst (load_pixbuf_from_archive ?E (Some ''good.cbz'') (Some ''a.png'')) = Some [30, 30, 9]
    \<and> cb_page_render_cairo ?E (Some (page_of ''good.cbz'')) (Some \<lparr>cb_page_file = ''a.png''\<rparr>) (Some []) False
     = (ZATHURA_ERROR_OK, Some [[30, 30, 9]],
        snd (load_pixbuf_from_archive ?E (Some ''good.cbz'') (Some ''a.png'')))"
    using inst [where name = "''good.cbz''" and pre = "[?b]" and e = ?A
        and rest = "[regular_entry ''a.png'' [20, 20, 5]]" and p = "page_of ''good.cbz''"
        and d = "\<lparr>doc_path = ''good.cbz'', number_of_pages = 1, doc_data = None\<rparr>", OF _ _ over(1)]
      match
    by (simp add: ascii_env_simps fetch_cases_def page_of_def blocks_before_eof_def archive_codes)
  have calls: "snd (load_pixbuf_from_archive ?E (Some ''good.cbz'') (Some ''a.png''))
      = [Archive_read_new, Archive_read_open_filename, Archive_read_close, Archive_read_free]"
    by (rule snd_load_pixbuf_from_archive) (simp_all add: ascii_env_def fetch_cases_def)
  have empty: "fst (load_pixbuf_from_archive ?E (Some ''empty.cbz'') (Some ''a.png'')) = None"
    using inst [where name = "''empty.cbz''" and pre = "[?b]" and rest = "[]", OF _ _ over(1)]
    by (simp add: ascii_env_simps fetch_cases_def)
  have broken: "fst (load_pixbuf_from_archive ?E (Some ''broken.cbz'') (Some ''a.png'')) = None"
    using inst [where name = "''broken.cbz''" and pre = "[]" and e = ?broken and rest = "[]",
        OF _ _ over(2)] match
    by (simp add: ascii_env_simps fetch_cases_def blocks_before_eof_def archive_codes)
  have missing: "fst (load_pixbuf_from_archive ?E (Some ''missing.cbz'') (Some ''a.png'')) = None"
    using inst [where name = "''missing.cbz''" and pre = "[]", OF _ _ over(2)]
    by (simp add: ascii_env_simps fetch_cases_def archive_codes)
  from good calls empty broken missing show ?thesis by simp
qed

subsection \<open>The order of the pages\<close>

lemma girara_list_append_commute_less:
  assumes swap: "\<forall>x y. (cmp x y < 0) = (cmp y x > (0::int))"
    and trans: "\<forall>x y z. cmp x y \<le> 0 \<and> cmp y z \<le> 0 \<longrightarrow> cmp x z \<le> 0"
    and less: "cmp a b < 0"
  shows "girara_list_append cmp a (girara_list_append cmp b xs)
       = girara_list_append cmp b (girara_list_append cmp a xs)"
proof (induction xs)
  case Nil
  from less swap have "cmp b a > 0" by blast
  with less show ?case by simp
next
  case (Cons y ys)
  from less swap have ba: "cmp b a > 0" by blast
  from less have ab: "\<not> cmp a b > 0" by simp
  show ?case
  proof (cases "cmp b y > 0")
    case True
    with Cons ba ab show ?thesis by simp
  next
    case False
    with trans less have "\<not> cmp a y > 0"
      by (metis less_le_not_le linorder_le_cases)
    with False ba ab show ?thesis by simp
  qed
qed

lemma girara_list_append_commute:
  assumes swap: "\<forall>x y. (cmp x y < 0) = (cmp y x > (0::int))"
    and trans: "\<forall>x y z. cmp x y \<le> 0 \<and> cmp y z \<le> 0 \<longrightarrow> cmp x z \<le> 0"
    and neq: "cmp a b \<noteq> 0"
  shows "girara_list_append cmp a (girara_list_append cmp b xs)
       = girara_list_append cmp b (girara_list_append cmp a xs)"
proof (cases "cmp a b < 0")
  case True
  with swap trans show ?thesis by (rule girara_list_append_commute_less)
next
  case False
  with neq have "cmp a b > 0" by simp
  with swap have "cmp b a < 0" by blast
  with swap trans show ?thesis by (rule girara_list_append_commute_less [symmetric])
qed

lemma girara_list_append_not_Nil: "girara_list_append cmp x xs \<noteq> []"
  by (cases xs) simp_all

lemma scan_entry_cases:
  "scan_entry E exts e pgs =
     (if scan_entry E exts e [] = [] then pgs
      else girara_list_append (compare_pages E) (probe_entry (loader E) e) pgs)"
proof (cases "entry_filetype e = AE_IFREG
    \<and> (\<exists>ext \<in> set exts. get_extension (Some (pathname e)) = Some ext)
    \<and> width (probe_entry (loader E) e) > 0 \<and> height (probe_entry (loader E) e) > 0")
  case True
  then have "\<And>ps. scan_entry E exts e ps
      = girara_list_append (compare_pages E) (probe_entry (loader E) e) ps"
    by (simp add: scan_entry_def foreach_extension_mem add_page_def Let_def)
  then show ?thesis by (simp add: girara_list_append_not_Nil)
next
  case False
  then have "\<And>ps. scan_entry E exts e ps = ps"
    by (auto simp: scan_entry_def foreach_extension_mem add_page_def Let_def)
  then show ?thesis by simp
qed

lemma meta_file_foldl_get_pixbuf_size:
  "meta_file (foldl get_pixbuf_size meta sizes) = meta_file meta"
  by (induction sizes arbitrary: meta) (simp_all add: get_pixbuf_size_def)

lemma meta_file_read_data_blocks:
  "meta_file (snd (read_data_blocks L bs s meta)) = meta_file meta"
proof (induction bs arbitrary: s meta)
  case Nil
  then show ?case by simp
next
  case (Cons b bs)
  obtain r buf where b: "b = (r, buf)" by (cases b)
  show ?case
    unfolding b using Cons.IH
    by (simp add: Let_def meta_file_foldl_get_pixbuf_size split: prod.splits)
qed

lemma meta_file_probe_entry: "meta_file (probe_entry L e) = pathname e"
  using meta_file_read_data_blocks
    [of L "data_blocks e" "loader_new L" "\<lparr>meta_file = pathname e, width = 0, height = 0\<rparr>"]
  by (auto simp: probe_entry_def Let_def meta_file_foldl_get_pixbuf_size split: prod.splits)

lemma scan_entry_commute:
  assumes ok: "collation_ok (utf8_collate E)"
    and apart: "e1 \<noteq> e2 \<and> scan_entry E exts e1 [] \<noteq> [] \<and> scan_entry E exts e2 [] \<noteq> []
       \<longrightarrow> compare_path E (pathname e1) (pathname e2) \<noteq> 0"
  shows "scan_entry E exts e1 (scan_entry E exts e2 pgs)
       = scan_entry E exts e2 (scan_entry E exts e1 pgs)"
proof (cases "e1 = e2 \<or> scan_entry E exts e1 [] = [] \<or> scan_entry E exts e2 [] = []")
  case True
  then show ?thesis
    using scan_entry_cases [of E exts e1] scan_entry_cases [of E exts e2] by metis
next
  case False
  let ?cmp = "compare_pages E"
  let ?m1 = "probe_entry (loader E) e1" and ?m2 = "probe_entry (loader E) e2"
  from ok have swap: "\<forall>x y. (?cmp x y < 0) = (?cmp y x > 0)"
    and trans: "\<forall>x y z. ?cmp x y \<le> 0 \<and> ?cmp y z \<le> 0 \<longrightarrow> ?cmp x z \<le> 0"
    unfolding collation_ok_def compare_pages_def compare_path_def Let_def by blast+
  from False apart have "?cmp ?m1 ?m2 \<noteq> 0"
    by (simp add: compare_pages_def meta_file_probe_entry)
  with swap trans have "\<And>ps. girara_list_append ?cmp ?m1 (girara_list_append ?cmp ?m2 ps)
       = girara_list_append ?cmp ?m2 (girara_list_append ?cmp ?m1 ps)"
    by (rule girara_list_append_commute)
  with False show ?thesis
    using scan_entry_cases [of E exts e1] scan_entry_cases [of E exts e2] by metis
qed

lemma scan_entries_no_error:
  assumes "\<forall>e \<in> set es. header_rc e \<noteq> ARCHIVE_EOF \<and> \<not> header_rc e < ARCHIVE_WARN"
  shows "scan_entries E exts es pgs = (True, fold (scan_entry E exts) es pgs, [])"
  using assms by (induction es arbitrary: pgs) (simp_all add: Let_def)

lemma scan_entries_error:
  assumes "\<forall>e \<in> set es. header_rc e \<noteq> ARCHIVE_EOF"
    and "\<exists>e \<in> set es. header_rc e < ARCHIVE_WARN"
  shows "fst (scan_entries E exts es pgs) = False"
  using assms by (induction es arbitrary: pgs) (auto simp: Let_def)


lemma cb_document_open_result:
  assumes "archive_file E (doc_path d) = \<lparr>open_rc = rc, entries = es\<rparr>"
  shows "\<exists>calls. cb_document_open E (Some d) =
    (if list_new_ok E \<and> sorted_list_new_ok E \<and> archive_read_new_ok E \<and> rc = ARCHIVE_OK
        \<and> fst (scan_entries E (concat (pixbuf_formats E)) es [])
     then (ZATHURA_ERROR_OK,
           Some (d\<lparr>number_of_pages :=
                      length (fst (snd (scan_entries E (concat (pixbuf_formats E)) es []))),
                   doc_data :=
                      Some \<lparr>pages = fst (snd (scan_entries E (concat (pixbuf_formats E)) es []))\<rparr>\<rparr>),
           calls)
     else (ZATHURA_ERROR_UNKNOWN, Some d, calls))"
  using assms
  by (auto simp: cb_document_open_def read_archive_def Let_def split: prod.splits bool.splits)

lemma scan_entries_permuted:
  assumes ok: "collation_ok (utf8_collate E)"
    and same: "mset es1 = mset es2"
    and eof: "\<forall>e \<in> set es1. header_rc e \<noteq> ARCHIVE_EOF"
    and apart: "\<forall>e1 \<in> set es1. \<forall>e2 \<in> set es1.
        e1 \<noteq> e2 \<and> scan_entry E exts e1 [] \<noteq> [] \<and> scan_entry E exts e2 [] \<noteq> []
        \<longrightarrow> compare_path E (pathname e1) (pathname e2) \<noteq> 0"
  shows "fst (scan_entries E exts es1 []) = fst (scan_entries E exts es2 [])
    \<and> (fst (scan_entries E exts es1 []) \<longrightarrow>
         fst (snd (scan_entries E exts es1 [])) = fst (snd (scan_entries E exts es2 [])))"
proof (cases "\<exists>e \<in> set es1. header_rc e < ARCHIVE_WARN")
  case True
  from same have sets: "set es1 = set es2" by (rule mset_eq_setD)
  from True eof have "fst (scan_entries E exts es1 []) = False"
    by (intro scan_entries_error) auto
  moreover from True eof sets have "fst (scan_entries E exts es2 []) = False"
    by (intro scan_entries_error) auto
  ultimately show ?thesis by simp
next
  case False
  from same have sets: "set es1 = set es2" by (rule mset_eq_setD)
  from False eof have s1: "scan_entries E exts es1 [] = (True, fold (scan_entry E exts) es1 [], [])"
    by (intro scan_entries_no_error) auto
  from False eof sets have s2: "scan_entries E exts es2 [] = (True, fold (scan_entry E exts) es2 [], [])"
    by (intro scan_entries_no_error) auto
  have "fold (scan_entry E exts) es1 = fold (scan_entry E exts) es2"
  proof (rule fold_multiset_equiv [OF _ same])
    fix x y
    assume "x \<in> set es1" and "y \<in> set es1"
    with apart have "x \<noteq> y \<and> scan_entry E exts x [] \<noteq> [] \<and> scan_entry E exts y [] \<noteq> []
        \<longrightarrow> compare_path E (pathname x) (pathname y) \<noteq> 0"
      by blast
    from scan_entry_commute [OF ok this]
    show "scan_entry E exts x \<circ> scan_entry E exts y = scan_entry E exts y \<circ> scan_entry E exts x"
      by (simp add: fun_eq_iff)
  qed
  with s1 s2 show ?thesis by simp
qed

text \<open>
  Claim C4, as the code has it. Two archives hold the same entries in different
  orders and open with the same code; the collation orders the strings; and any two
  different entries that become pages have paths that the comparator tells apart.
  Then opening the one and opening the other give the same error code, the same
  number of pages and the same list of pages.
\<close>

theorem page_order_invariant:
  assumes "collation_ok (utf8_collate E)"
    and "archive_file E (doc_path d) = \<lparr>open_rc = rc, entries = es1\<rparr>"
    and "archive_file E other_path = \<lparr>open_rc = rc, entries = es2\<rparr>"
    and "mset es1 = mset es2"
    and "\<forall>e \<in> set es1. header_rc e \<noteq> ARCHIVE_EOF"
    and "\<forall>e1 \<in> set es1. \<forall>e2 \<in> set es1.
        e1 \<noteq> e2 \<and> scan_entry E (concat (pixbuf_formats E)) e1 [] \<noteq> []
          \<and> scan_entry E (concat (pixbuf_formats E)) e2 [] \<noteq> []
        \<longrightarrow> compare_path E (pathname e1) (pathname e2) \<noteq> 0"
  shows "fst (cb_document_open E (Some (d\<lparr>doc_path := other_path\<rparr>)))
       = fst (cb_document_open E (Some d))
    \<and> map_option number_of_pages (fst (snd (cb_document_open E (Some (d\<lparr>doc_path := other_path\<rparr>)))))
       = map_option number_of_pages (fst (snd (cb_document_open E (Some d))))
    \<and> map_option doc_data (fst (snd (cb_document_open E (Some (d\<lparr>doc_path := other_path\<rparr>)))))
       = map_option doc_data (fst (snd (cb_document_open E (Some d))))"
proof -
  from cb_document_open_result [OF assms(2)] obtain calls1 where
    o1: "cb_document_open E (Some d) =
    (if list_new_ok E \<and> sorted_list_new_ok E \<and> archive_read_new_ok E \<and> rc = ARCHIVE_OK
        \<and> fst (scan_entries E (concat (pixbuf_formats E)) es1 [])
     then (ZATHURA_ERROR_OK,
           Some (d\<lparr>number_of_pages :=
                      length (fst (snd (scan_entries E (concat (pixbuf_formats E)) es1 []))),
                   doc_data :=
                      Some \<lparr>pages = fst (snd (scan_entries E (concat (pixbuf_formats E)) es1 []))\<rparr>\<rparr>),
           calls1)
     else (ZATHURA_ERROR_UNKNOWN, Some d, calls1))" by blast
  have "archive_file E (doc_path (d\<lparr>doc_path := other_path\<rparr>)) = \<lparr>open_rc = rc, entries = es2\<rparr>"
    using assms(3) by simp
  from cb_document_open_result [OF this] obtain calls2 where
    o2: "cb_document_open E (Some (d\<lparr>doc_path := other_path\<rparr>)) =
    (if list_new_ok E \<and> sorted_list_new_ok E \<and> archive_read_new_ok E \<and> rc = ARCHIVE_OK
        \<and> fst (scan_entries E (concat (pixbuf_formats E)) es2 [])
     then (ZATHURA_ERROR_OK,
           Some (d\<lparr>doc_path := other_path, number_of_pages :=
                      length (fst (snd (scan_entries E (concat (pixbuf_formats E)) es2 []))),
                   doc_data :=
                      Some \<lparr>pages = fst (snd (scan_entries E (concat (pixbuf_formats E)) es2 []))\<rparr>\<rparr>),
           calls2)
     else (ZATHURA_ERROR_UNKNOWN, Some (d\<lparr>doc_path := other_path\<rparr>), calls2))" by blast
  from scan_entries_permuted [OF assms(1,4,5,6)] show ?thesis
    unfolding o1 o2 by auto
qed

text \<open>
  Without the condition on the paths the order of the entries shows: a new page is put
  before the pages it compares equal to, so of two paths that differ in letter case
  only, the one stored later comes first.
\<close>

theorem page_order_depends_on_case_ties:
  "mset case_pair = mset (rev case_pair)
   \<and> fst (snd (cb_document_open
        (ascii_env (directory [(''x.cbz'', case_pair), (''y.cbz'', rev case_pair)]))
        (Some \<lparr>doc_path = ''x.cbz'', number_of_pages = 0, doc_data = None\<rparr>)))
     = Some \<lparr>doc_path = ''x.cbz'', number_of_pages = 2,
             doc_data = Some \<lparr>pages = [\<lparr>meta_file = ''a.png'', width = 20, height = 20\<rparr>,
                                       \<lparr>meta_file = ''A.png'', width = 10, height = 10\<rparr>]\<rparr>\<rparr>
   \<and> fst (snd (cb_document_open
        (ascii_env (directory [(''x.cbz'', case_pair), (''y.cbz'', rev case_pair)]))
        (Some \<lparr>doc_path = ''y.cbz'', number_of_pages = 0, doc_data = None\<rparr>)))
     = Some \<lparr>doc_path = ''y.cbz'', number_of_pages = 2,
             doc_data = Some \<lparr>pages = [\<lparr>meta_file = ''A.png'', width = 10, height = 10\<rparr>,
                                       \<lparr>meta_file = ''a.png'', width = 20, height = 20\<rparr>]\<rparr>\<rparr>
   \<and> map_option doc_data (fst (snd (cb_document_open
        (ascii_env (directory [(''x.cbz'', case_pair), (''y.cbz'', rev case_pair)]))
        (Some \<lparr>doc_path = ''x.cbz'', number_of_pages = 0, doc_data = None\<rparr>))))
     \<noteq> map_option doc_data (fst (snd (cb_document_open
        (ascii_env (directory [(''x.cbz'', case_pair), (''y.cbz'', rev case_pair)]))
        (Some \<lparr>doc_path = ''y.cbz'', number_of_pages = 0, doc_data = None\<rparr>))))"
proof -
  have fold: "ascii_casefold ''A.png'' = ''a.png''" "ascii_casefold ''a.png'' = ''a.png''"
    by code_simp+
  show ?thesis
    by (simp add: scan_simps ascii_env_simps case_pair_def archive_codes fold)
qed


theorem page_order_invariant_witness:
  "fst (cb_document_open
        (ascii_env (directory [(''x.cbz'', three_entries), (''y.cbz'', rev three_entries)]))
        (Some \<lparr>doc_path = ''y.cbz'', number_of_pages = 0, doc_data = None\<rparr>))
     = ZATHURA_ERROR_OK
   \<and> map_option doc_data (fst (snd (cb_document_open
        (ascii_env (directory [(''x.cbz'', three_entries), (''y.cbz'', rev three_entries)]))
        (Some \<lparr>doc_path = ''y.cbz'', number_of_pages = 0, doc_data = None\<rparr>))))
     = Some (Some \<lparr>pages = [\<lparr>meta_file = ''a.png'', width = 30, height = 30\<rparr>,
                              \<lparr>meta_file = ''b.png'', width = 50, height = 50\<rparr>]\<rparr>)
   \<and> map_option number_of_pages (fst (snd (cb_document_open
        (ascii_env (directory [(''x.cbz'', three_entries), (''y.cbz'', rev three_entries)]))
        (Some \<lparr>doc_path = ''y.cbz'', number_of_pages = 0, doc_data = None\<rparr>))))
     = Some 2"
proof -
  let ?E = "ascii_env (directory [(''x.cbz'', three_entries), (''y.cbz'', rev three_entries)])"
  let ?d = "\<lparr>doc_path = ''x.cbz'', number_of_pages = 0, doc_data = None\<rparr>"
  have ok: "collation_ok (utf8_collate ?E)"
    by (simp add: ascii_env_def collation_ok_strcmp)
  have a1: "archive_file ?E (doc_path ?d) = \<lparr>open_rc = ARCHIVE_OK, entries = three_entries\<rparr>"
    by (simp add: ascii_env_def)
  have a2: "archive_file ?E ''y.cbz'' = \<lparr>open_rc = ARCHIVE_OK, entries = rev three_entries\<rparr>"
    by (simp add: ascii_env_def)
  have same: "mset three_entries = mset (rev three_entries)"
    by simp
  have eof: "\<forall>e \<in> set three_entries. header_rc e \<noteq> ARCHIVE_EOF"
    by (simp add: three_entries_def regular_entry_def archive_codes)
  have apart: "\<forall>e1 \<in> set three_entries. \<forall>e2 \<in> set three_entries.
        e1 \<noteq> e2 \<and> scan_entry ?E (concat (pixbuf_formats ?E)) e1 [] \<noteq> []
          \<and> scan_entry ?E (concat (pixbuf_formats ?E)) e2 [] \<noteq> []
        \<longrightarrow> compare_path ?E (pathname e1) (pathname e2) \<noteq> 0"
    by (simp add: three_entries_def regular_entry_def compare_path_def ascii_env_def
        ascii_casefold_def ascii_tolower_def)
  have x: "cb_document_open ?E (Some ?d)
     = (ZATHURA_ERROR_OK,
        Some \<lparr>doc_path = ''x.cbz'', number_of_pages = 2,
              doc_data = Some \<lparr>pages = [\<lparr>meta_file = ''a.png'', width = 30, height = 30\<rparr>,
                                        \<lparr>meta_file = ''b.png'', width = 50, height = 50\<rparr>]\<rparr>\<rparr>,
        [Archive_read_new, Archive_read_open_filename, Archive_read_close, Archive_read_free])"
    by (simp add: scan_simps ascii_env_simps three_entries_def archive_codes
        ascii_casefold_def ascii_tolower_def)
  from page_order_invariant [OF ok a1 a2 same eof apart] x
  show ?thesis by simp
qed

end
